theory Spec2Isabelle
  imports Main
begin

section \<open>Errors\<close>

text \<open>
  The exceptions the code of \<^verbatim>\<open>docx/shape.py\<close> can raise, as values.
  \<open>IndexError\<close> carries its message; \<open>AttributeError\<close> is what Python raises
  when an attribute is read from or written through \<open>None\<close>; \<open>ValueError\<close> is what
  \<open>float()\<close> raises on a malformed string.
\<close>

datatype error = IndexError string | AttributeError | ValueError

section \<open>The element tree under an inline shape\<close>

text \<open>
  Modelled from the spec: the element classes behind \<^verbatim>\<open>CT_Inline\<close>
  (module \<^verbatim>\<open>docx.oxml.shape\<close>) are not part of the source file. The spec gives an
  inline graphic an \<open>extent\<close> sub-node with \<open>cx\<close> and \<open>cy\<close>, a \<open>graphicData\<close>
  sub-node with a \<open>uri\<close> and, for picture data only, a \<open>pic\<close> sub-tree holding the
  redundant size \<open>spPr\<close> and the \<open>blip\<close> with its optional link reference. The \<open>pic\<close>
  sub-tree may be absent; reading it then gives \<open>None\<close>. Lengths are Python ints (EMU).
\<close>

record size2D =
  cx :: int
  cy :: int

record CT_Blip =
  link :: "string option"

record CT_BlipFill =
  blip :: CT_Blip

record CT_Picture =
  blipFill :: CT_BlipFill
  spPr :: size2D

record CT_GraphicData =
  uri :: string
  pic :: "CT_Picture option"

record CT_Graphic =
  graphicData :: CT_GraphicData

record CT_Inline =
  extent :: size2D
  graphic :: CT_Graphic

text \<open>
  The body element: the code only calls its \<open>xpath\<close> method, which belongs to the XML
  library. It is a field of the record, so any evaluator can be supplied.
\<close>

record CT_Body =
  xpath :: "string \<Rightarrow> CT_Inline list"

section \<open>Decimal rendering of an integer\<close>

text \<open>The \<^verbatim>\<open>%d\<close> conversion used in the message of the index error.\<close>

definition digit_char :: "nat \<Rightarrow> char" where
  "digit_char d = char_of (48 + d)"

function str_nat :: "nat \<Rightarrow> string" where
  "str_nat n = (if n < 10 then [digit_char n] else str_nat (n div 10) @ [digit_char (n mod 10)])"
  by pat_completeness auto
termination
  by (relation "measure id") auto

declare str_nat.simps [simp del]

definition str_int :: "int \<Rightarrow> string" where
  "str_int i = (if i < 0 then CHR ''-'' # str_nat (nat (- i)) else str_nat (nat i))"

section \<open>InlineShapes\<close>

text \<open>The proxy object: it holds the element it was built from and nothing else.\<close>

datatype InlineShape = InlineShape (inline_elm: CT_Inline)

text \<open>The collection holds the body element; the parent is not used by any method.\<close>

datatype InlineShapes = InlineShapes (body_elm: CT_Body)

definition inline_lst :: "InlineShapes \<Rightarrow> CT_Inline list" where
  "inline_lst self = xpath (body_elm self) ''//w:p/w:r/w:drawing/wp:inline''"

definition len :: "InlineShapes \<Rightarrow> nat" where
  "len self = length (inline_lst self)"

text \<open>
  Indexing a Python list: an index in \<open>[0, n)\<close> reads that position, an index in
  \<open>[-n, 0)\<close> reads position \<open>n + idx\<close>, any other index raises \<open>IndexError\<close>.
\<close>

definition list_getitem :: "'a list \<Rightarrow> int \<Rightarrow> 'a option" where
  "list_getitem xs idx =
     (let n = int (length xs) in
      if 0 \<le> idx \<and> idx < n then Some (xs ! nat idx)
      else if - n \<le> idx \<and> idx < 0 then Some (xs ! nat (n + idx))
      else None)"

definition index_msg :: "int \<Rightarrow> string" where
  "index_msg idx = ''inline shape index ['' @ str_int idx @ ''] out of range''"

definition getitem :: "InlineShapes \<Rightarrow> int \<Rightarrow> error + InlineShape" where
  "getitem self idx =
     (case list_getitem (inline_lst self) idx of
        None \<Rightarrow> Inl (IndexError (index_msg idx))
      | Some inline \<Rightarrow> Inr (InlineShape inline))"

definition iter :: "InlineShapes \<Rightarrow> InlineShape list" where
  "iter self = map InlineShape (inline_lst self)"

section \<open>InlineShape\<close>

text \<open>
  A setter mutates the element in place and may raise half way. The model returns the
  outcome together with the element as the call leaves it.
\<close>

definition InlineShape_height :: "InlineShape \<Rightarrow> int" where
  "InlineShape_height self = cy (extent (inline_elm self))"

definition InlineShape_width :: "InlineShape \<Rightarrow> int" where
  "InlineShape_width self = cx (extent (inline_elm self))"

definition set_spPr :: "(size2D \<Rightarrow> size2D) \<Rightarrow> CT_Inline \<Rightarrow> CT_Picture \<Rightarrow> CT_Inline" where
  "set_spPr f inl p =
     inl\<lparr>graphic := (graphic inl)\<lparr>graphicData :=
        (graphicData (graphic inl))\<lparr>pic := Some (p\<lparr>spPr := f (spPr p)\<rparr>)\<rparr>\<rparr>\<rparr>"

definition InlineShape_set_height :: "InlineShape \<Rightarrow> int \<Rightarrow> (error + unit) \<times> InlineShape" where
  "InlineShape_set_height self v =
     (let inl = (inline_elm self)\<lparr>extent := (extent (inline_elm self))\<lparr>cy := v\<rparr>\<rparr> in
      case pic (graphicData (graphic inl)) of
        None \<Rightarrow> (Inl AttributeError, InlineShape inl)
      | Some p \<Rightarrow> (Inr (), InlineShape (set_spPr (\<lambda>s. s\<lparr>cy := v\<rparr>) inl p)))"

definition InlineShape_set_width :: "InlineShape \<Rightarrow> int \<Rightarrow> (error + unit) \<times> InlineShape" where
  "InlineShape_set_width self v =
     (let inl = (inline_elm self)\<lparr>extent := (extent (inline_elm self))\<lparr>cx := v\<rparr>\<rparr> in
      case pic (graphicData (graphic inl)) of
        None \<Rightarrow> (Inl AttributeError, InlineShape inl)
      | Some p \<Rightarrow> (Inr (), InlineShape (set_spPr (\<lambda>s. s\<lparr>cx := v\<rparr>) inl p)))"

text \<open>The secondary size field, read along the path the setters write.\<close>

definition spPr_of :: "InlineShape \<Rightarrow> size2D option" where
  "spPr_of self = map_option spPr (pic (graphicData (graphic (inline_elm self))))"

datatype WD_INLINE_SHAPE = CHART | LINKED_PICTURE | PICTURE | SMART_ART | NOT_IMPLEMENTED

text \<open>
  The namespace table \<^verbatim>\<open>nsmap\<close> is imported from \<^verbatim>\<open>docx.oxml.ns\<close>; the three
  entries the classification reads are parameters.
\<close>

record nsmap =
  ns_pic :: string
  ns_c :: string
  ns_dgm :: string

definition InlineShape_type :: "nsmap \<Rightarrow> InlineShape \<Rightarrow> error + WD_INLINE_SHAPE" where
  "InlineShape_type ns self =
     (let gd = graphicData (graphic (inline_elm self)); u = uri gd in
      if u = ns_pic ns then
        (case pic gd of
           None \<Rightarrow> Inl AttributeError
         | Some p \<Rightarrow>
             if link (blip (blipFill p)) \<noteq> None then Inr LINKED_PICTURE else Inr PICTURE)
      else if u = ns_c ns then Inr CHART
      else if u = ns_dgm ns then Inr SMART_ART
      else Inr NOT_IMPLEMENTED)"

section \<open>Python string operations\<close>

text \<open>
  The \<open>str\<close> methods the textbox code calls. A \<open>char\<close> stands for a code point
  below 256; \<open>isspace\<close> lists the white space among them (the characters
  \<open>str.strip()\<close> removes).
\<close>

definition isspace :: "char \<Rightarrow> bool" where
  "isspace c =
     (let n = (of_char c :: nat) in
      (9 \<le> n \<and> n \<le> 13) \<or> (28 \<le> n \<and> n \<le> 32) \<or> n = 133 \<or> n = 160)"

definition strip :: "string \<Rightarrow> string" where
  "strip s = rev (dropWhile isspace (rev (dropWhile isspace s)))"

fun startswith :: "string \<Rightarrow> string \<Rightarrow> bool" where
  "startswith s [] = True"
| "startswith [] (p # ps) = False"
| "startswith (c # cs) (p # ps) = (c = p \<and> startswith cs ps)"

text \<open>\<open>s.find(sub)\<close>: the index of the first occurrence, \<open>None\<close> for Python's -1.\<close>

fun find_sub :: "string \<Rightarrow> string \<Rightarrow> nat option" where
  "find_sub [] sub = (if sub = [] then Some 0 else None)"
| "find_sub (c # cs) sub =
     (if startswith (c # cs) sub then Some 0 else map_option Suc (find_sub cs sub))"

text \<open>\<open>sub in s\<close>.\<close>

definition contains :: "string \<Rightarrow> string \<Rightarrow> bool" where
  "contains s sub = (find_sub s sub \<noteq> None)"

text \<open>
  \<open>s.split(sep)\<close>: cut at the occurrences of \<open>sep\<close>, found from left to right without
  overlap. Every separator in the source is a non-empty literal; for the empty separator
  (where Python raises) the function returns \<open>[s]\<close>.
\<close>

function split :: "string \<Rightarrow> string \<Rightarrow> string list" where
  "split s sep =
     (case find_sub s sep of
        None \<Rightarrow> [s]
      | Some i \<Rightarrow> if sep = [] then [s] else take i s # split (drop (i + length sep) s) sep)"
  by pat_completeness auto
termination
proof (relation "measure (\<lambda>(s, sep). length s)")
  show "wf (measure (\<lambda>(s, sep). length s))" by simp
next
  fix s sep :: string and i :: nat
  assume found: "find_sub s sep = Some i" and ne: "sep \<noteq> []"
  have "s \<noteq> []" using found ne by (cases s) auto
  then show "((drop (i + length sep) s, sep), (s, sep)) \<in> measure (\<lambda>(s, sep). length s)"
    using ne by (cases s) auto
qed

declare split.simps [simp del]

text \<open>
  \<open>s.replace(old, new)\<close> for a non-empty \<open>old\<close> (the source replaces the literal
  \<open>pt\<close>); with an empty \<open>old\<close> the function returns \<open>s\<close>.
\<close>

function replace :: "string \<Rightarrow> string \<Rightarrow> string \<Rightarrow> string" where
  "replace [] old new = []"
| "replace (c # cs) old new =
     (if old \<noteq> [] \<and> startswith (c # cs) old
      then new @ replace (drop (length old) (c # cs)) old new
      else c # replace cs old new)"
  by pat_completeness auto
termination
  by (relation "measure (\<lambda>(s, old, new). length s)") (auto simp: neq_Nil_conv)

text \<open>\<open>sep.join(parts)\<close>.\<close>

fun join :: "string \<Rightarrow> string list \<Rightarrow> string" where
  "join sep [] = []"
| "join sep [x] = x"
| "join sep (x # y # ys) = x @ sep @ join sep (y # ys)"

section \<open>Textbox\<close>

text \<open>
  The VML shape element: the textbox code reads and writes its attributes with the XML
  library's \<open>get\<close> and \<open>set\<close>, so the element is its attribute dictionary.
\<close>

record CT_Shape =
  attrib :: "string \<rightharpoonup> string"

definition elm_get :: "CT_Shape \<Rightarrow> string \<Rightarrow> string option" where
  "elm_get e name = attrib e name"

definition elm_set :: "CT_Shape \<Rightarrow> string \<Rightarrow> string \<Rightarrow> CT_Shape" where
  "elm_set e name v = e\<lparr>attrib := (attrib e)(name \<mapsto> v)\<rparr>"

datatype Textbox = Textbox (shape_elm: CT_Shape)

text \<open>
  The conversions between \<open>float\<close> and \<open>str\<close> are built into the language: \<open>float(s)\<close>,
  which may raise \<open>ValueError\<close>, the formatting of a float in an f-string, and the
  literal \<open>0.0\<close>. They are parameters; \<open>'f\<close> is the type of floats.
\<close>

record 'f float_ops =
  py_float :: "string \<Rightarrow> error + 'f"
  py_format :: "'f \<Rightarrow> string"
  float_zero :: 'f

text \<open>\<open>self._shape.get("style") or ""\<close>.\<close>

definition style_of :: "Textbox \<Rightarrow> string" where
  "style_of self = (case elm_get (shape_elm self) ''style'' of None \<Rightarrow> [] | Some s \<Rightarrow> s)"

text \<open>
  The four getters have the same body up to the literal \<open>key:\<close>, here \<open>marker\<close>:
  \<open>style.split(marker)[1].split(";")[0]\<close>, then \<open>float\<close> of the text without \<open>pt\<close>.
\<close>

definition read_points :: "'f float_ops \<Rightarrow> string \<Rightarrow> Textbox \<Rightarrow> error + 'f" where
  "read_points fl marker self =
     (let style = style_of self in
      if contains style marker then
        (case split style marker of
           _ # rest # _ \<Rightarrow>
             (case split rest '';'' of
                part # _ \<Rightarrow> py_float fl (replace part ''pt'' [])
              | [] \<Rightarrow> Inl (IndexError ''list index out of range''))
         | _ \<Rightarrow> Inl (IndexError ''list index out of range''))
      else Inr (float_zero fl))"

definition Textbox_left :: "'f float_ops \<Rightarrow> Textbox \<Rightarrow> error + 'f" where
  "Textbox_left fl self = read_points fl ''margin-left:'' self"

definition Textbox_top :: "'f float_ops \<Rightarrow> Textbox \<Rightarrow> error + 'f" where
  "Textbox_top fl self = read_points fl ''margin-top:'' self"

definition Textbox_width :: "'f float_ops \<Rightarrow> Textbox \<Rightarrow> error + 'f" where
  "Textbox_width fl self = read_points fl ''width:'' self"

definition Textbox_height :: "'f float_ops \<Rightarrow> Textbox \<Rightarrow> error + 'f" where
  "Textbox_height fl self = read_points fl ''height:'' self"

definition update_style_property :: "Textbox \<Rightarrow> string \<Rightarrow> string \<Rightarrow> Textbox" where
  "update_style_property self property_name value =
     (let style = style_of self;
          style_parts = map strip (filter (\<lambda>part. strip part \<noteq> []) (split style '';''));
          style_parts = filter (\<lambda>part. \<not> startswith part (property_name @ '':'')) style_parts;
          style_parts = style_parts @ [property_name @ '':'' @ value]
      in Textbox (elm_set (shape_elm self) ''style'' (join '';'' style_parts @ '';'')))"

definition Textbox_set_left :: "'f float_ops \<Rightarrow> Textbox \<Rightarrow> 'f \<Rightarrow> Textbox" where
  "Textbox_set_left fl self v = update_style_property self ''margin-left'' (py_format fl v @ ''pt'')"

definition Textbox_set_top :: "'f float_ops \<Rightarrow> Textbox \<Rightarrow> 'f \<Rightarrow> Textbox" where
  "Textbox_set_top fl self v = update_style_property self ''margin-top'' (py_format fl v @ ''pt'')"

definition Textbox_set_width :: "'f float_ops \<Rightarrow> Textbox \<Rightarrow> 'f \<Rightarrow> Textbox" where
  "Textbox_set_width fl self v = update_style_property self ''width'' (py_format fl v @ ''pt'')"

definition Textbox_set_height :: "'f float_ops \<Rightarrow> Textbox \<Rightarrow> 'f \<Rightarrow> Textbox" where
  "Textbox_set_height fl self v = update_style_property self ''height'' (py_format fl v @ ''pt'')"

section \<open>The style format as the specification words it\<close>

text \<open>
  The specification reads a style string as pairs: split on \<open>;\<close>, discard the empty
  fragments, split each fragment on its first \<open>:\<close>. Nothing is trimmed. A fragment
  without \<open>:\<close> is not a pair of the grammar \<open>(key ":" value ";")*\<close>. \<open>spec_get\<close> is the
  value of the first pair with the given key.
\<close>

definition spec_fragments :: "string \<Rightarrow> string list" where
  "spec_fragments s = filter (\<lambda>f. f \<noteq> []) (split s '';'')"

definition spec_pair :: "string \<Rightarrow> string \<times> string" where
  "spec_pair f = (takeWhile (\<lambda>c. c \<noteq> CHR '':'') f, tl (dropWhile (\<lambda>c. c \<noteq> CHR '':'') f))"

definition spec_pairs :: "string \<Rightarrow> (string \<times> string) list" where
  "spec_pairs s = map spec_pair (filter (\<lambda>f. CHR '':'' \<in> set f) (spec_fragments s))"

definition spec_get :: "string \<Rightarrow> string \<Rightarrow> string option" where
  "spec_get s k = map_of (spec_pairs s) k"

text \<open>
  The parts \<open>_update_style_property\<close> keeps of the old style, before it appends the new
  pair: its two list comprehensions.
\<close>

definition kept_parts :: "string \<Rightarrow> string \<Rightarrow> string list" where
  "kept_parts style k =
     filter (\<lambda>part. \<not> startswith part (k @ '':''))
       (map strip (filter (\<lambda>part. strip part \<noteq> []) (split style '';'')))"

section \<open>Example data\<close>

definition ex_ns :: nsmap where
  "ex_ns = \<lparr>ns_pic = ''http://schemas.openxmlformats.org/drawingml/2006/picture'',
            ns_c = ''http://schemas.openxmlformats.org/drawingml/2006/chart'',
            ns_dgm = ''http://schemas.openxmlformats.org/drawingml/2006/diagram''\<rparr>"

definition ex_picture :: "string option \<Rightarrow> CT_Picture" where
  "ex_picture l = \<lparr>blipFill = \<lparr>blip = \<lparr>link = l\<rparr>\<rparr>, spPr = \<lparr>cx = 914400, cy = 457200\<rparr>\<rparr>"

definition ex_inline :: "string \<Rightarrow> CT_Picture option \<Rightarrow> CT_Inline" where
  "ex_inline u p =
     \<lparr>extent = \<lparr>cx = 914400, cy = 457200\<rparr>, graphic = \<lparr>graphicData = \<lparr>uri = u, pic = p\<rparr>\<rparr>\<rparr>"

definition ex_shapes :: InlineShapes where
  "ex_shapes = InlineShapes \<lparr>xpath = (\<lambda>q. if q = ''//w:p/w:r/w:drawing/wp:inline''
       then [ex_inline (ns_pic ex_ns) (Some (ex_picture None)), ex_inline (ns_c ex_ns) None]
       else [])\<rparr>"

definition ex_textbox :: "string option \<Rightarrow> Textbox" where
  "ex_textbox st = Textbox \<lparr>attrib = (\<lambda>name. if name = ''style'' then st else None)\<rparr>"

section \<open>Facts about the string operations\<close>


lemma startswith_iff: "startswith s p \<longleftrightarrow> (\<exists>r. s = p @ r)"
  by (induction s p rule: startswith.induct) auto

lemma startswith_append [simp]: "startswith (p @ r) p"
  by (simp add: startswith_iff)

lemma find_sub_single_None: "c \<notin> set s \<Longrightarrow> find_sub s [c] = None"
  by (induction s) auto

lemma find_sub_single_Some: "c \<notin> set p \<Longrightarrow> find_sub (p @ c # r) [c] = Some (length p)"
  by (induction p) auto

lemma find_sub_single_cases:
  "find_sub s [c] = None \<and> c \<notin> set s \<or>
   (\<exists>p r. s = p @ c # r \<and> c \<notin> set p \<and> find_sub s [c] = Some (length p))"
proof (cases "c \<in> set s")
  case True
  then obtain p r where "s = p @ c # r" "c \<notin> set p"
    by (meson split_list_first)
  then show ?thesis using find_sub_single_Some by blast
next
  case False
  then show ?thesis by (simp add: find_sub_single_None)
qed

lemma split_single_notin: "c \<notin> set s \<Longrightarrow> split s [c] = [s]"
  by (simp add: split.simps find_sub_single_None)

lemma split_single_app: "c \<notin> set p \<Longrightarrow> split (p @ c # r) [c] = p # split r [c]"
  by (subst split.simps) (simp add: find_sub_single_Some)

lemma split_single_no_sep: "p \<in> set (split s [c]) \<Longrightarrow> c \<notin> set p"
proof (induction s "[c]" arbitrary: p rule: split.induct)
  case (1 s)
  from find_sub_single_cases [of s c] show ?case
  proof (elim disjE conjE exE)
    assume "find_sub s [c] = None" "c \<notin> set s"
    with "1.prems" show ?thesis by (simp add: split_single_notin)
  next
    fix q r assume s: "s = q @ c # r" and q: "c \<notin> set q" and f: "find_sub s [c] = Some (length q)"
    have sp: "split s [c] = q # split r [c]" using s q by (simp add: split_single_app)
    have dr: "drop (length q + length [c]) s = r" using s by simp
    from "1.prems" sp have "p = q \<or> p \<in> set (split r [c])" by auto
    then show ?thesis
    proof
      assume "p = q" with q show ?thesis by simp
    next
      assume "p \<in> set (split r [c])"
      then show ?thesis using "1.hyps" [OF f _ , of p] dr by simp
    qed
  qed
qed

lemma join_trailing: "xs \<noteq> [] \<Longrightarrow> join sep xs @ sep = concat (map (\<lambda>p. p @ sep) xs)"
  by (induction sep xs rule: join.induct) auto

lemma split_serialized:
  "\<forall>p \<in> set xs. c \<notin> set p \<Longrightarrow> split (concat (map (\<lambda>p. p @ [c]) xs)) [c] = xs @ [[]]"
proof (induction xs)
  case Nil
  show ?case by (simp add: split_single_notin)
next
  case (Cons x xs)
  then show ?case using split_single_app [of c x] by simp
qed

lemma set_strip: "set (strip s) \<subseteq> set s"
proof -
  have "set (strip s) \<subseteq> set (dropWhile isspace s)"
    unfolding strip_def using set_dropWhileD by fastforce
  also have "\<dots> \<subseteq> set s" using set_dropWhileD by fastforce
  finally show ?thesis .
qed

lemma strip_fixed: "s = [] \<or> (\<not> isspace (hd s) \<and> \<not> isspace (last s)) \<Longrightarrow> strip s = s"
proof (cases s)
  case Nil then show ?thesis by (simp add: strip_def)
next
  case (Cons a t)
  assume "s = [] \<or> (\<not> isspace (hd s) \<and> \<not> isspace (last s))"
  with Cons have h: "\<not> isspace (hd s)" and l: "\<not> isspace (last s)" by auto
  have 1: "dropWhile isspace s = s" using h Cons by simp
  have "hd (rev s) = last s" using Cons by (simp add: hd_rev)
  then have 2: "dropWhile isspace (rev s) = rev s" using l Cons
    by (metis dropWhile.simps(2) list.collapse rev_is_Nil_conv list.distinct(1))
  show ?thesis by (simp add: strip_def 1 2)
qed

lemma strip_ends: "strip s \<noteq> [] \<Longrightarrow> \<not> isspace (hd (strip s)) \<and> \<not> isspace (last (strip s))"
proof -
  assume ne: "strip s \<noteq> []"
  let ?d = "dropWhile isspace s"
  let ?e = "dropWhile isspace (rev ?d)"
  have e: "?e \<noteq> []" using ne by (simp add: strip_def)
  have d: "?d \<noteq> []"
  proof
    assume "?d = []"
    then have "?e = []" by (simp only: rev.simps dropWhile.simps)
    with e show False by blast
  qed
  have l: "\<not> isspace (hd ?e)" using e by (rule hd_dropWhile)
  have last: "last (strip s) = hd ?e" using e by (simp add: strip_def last_rev)
  obtain ys where ys: "rev ?d = ys @ ?e"
    by (metis takeWhile_dropWhile_id)
  then have "?d = rev ?e @ rev ys" by (metis rev_append rev_rev_ident)
  then have "hd ?d = hd (rev ?e)" using e by (metis hd_append2 rev_is_Nil_conv)
  moreover have "\<not> isspace (hd ?d)" using d by (rule hd_dropWhile)
  ultimately have "\<not> isspace (hd (strip s))" by (simp add: strip_def)
  with l last show ?thesis by simp
qed

lemma strip_idem: "strip (strip s) = strip s"
  using strip_ends [of s] strip_fixed [of "strip s"] by blast


section \<open>Facts about the style update\<close>

lemma style_of_update:
  "style_of (update_style_property self k v) =
     join '';'' (kept_parts (style_of self) k @ [k @ '':'' @ v]) @ '';''"
  by (simp add: update_style_property_def kept_parts_def style_of_def elm_get_def elm_set_def Let_def)

lemma kept_parts_props:
  assumes "p \<in> set (kept_parts s k)"
  shows "CHR '';'' \<notin> set p" and "p \<noteq> []" and "strip p = p" and "\<not> startswith p (k @ '':'')"
proof -
  from assms obtain f where f: "f \<in> set (split s '';'')" and p: "p = strip f"
    and ne: "strip f \<noteq> []" and ns: "\<not> startswith p (k @ '':'')"
    by (auto simp: kept_parts_def)
  have "CHR '';'' \<notin> set f" using f by (rule split_single_no_sep)
  then show "CHR '';'' \<notin> set p" using set_strip [of f] p by blast
  show "p \<noteq> []" using p ne by simp
  show "strip p = p" using p by (simp add: strip_idem)
  show "\<not> startswith p (k @ '':'')" by (rule ns)
qed

lemma split_new_style:
  assumes "CHR '';'' \<notin> set k" and "CHR '';'' \<notin> set v"
  shows "split (join '';'' (kept_parts s k @ [k @ '':'' @ v]) @ '';'') '';''
           = kept_parts s k @ [k @ '':'' @ v, []]"
proof -
  let ?xs = "kept_parts s k @ [k @ '':'' @ v]"
  have no: "\<forall>p \<in> set ?xs. CHR '';'' \<notin> set p"
    using assms kept_parts_props(1) by auto
  have "join '';'' ?xs @ '';'' = concat (map (\<lambda>p. p @ '';'') ?xs)"
    by (rule join_trailing) simp
  then show ?thesis using split_serialized [OF no] by simp
qed

lemma not_isspace_colon: "\<not> isspace CHR '':''"
  by (simp add: isspace_def)

lemma strip_pair:
  assumes "k = [] \<or> \<not> isspace (hd k)"
  shows "\<exists>w. strip (k @ '':'' @ v) = k @ '':'' @ w"
proof -
  let ?s = "k @ CHR '':'' # v"
  have hd: "\<not> isspace (hd ?s)" using assms not_isspace_colon by (cases k) auto
  have 1: "dropWhile isspace ?s = ?s" using hd by (cases k) auto
  have r: "rev ?s = rev v @ CHR '':'' # rev k" by simp
  have "\<exists>u. dropWhile isspace (rev v @ CHR '':'' # rev k) = u @ CHR '':'' # rev k"
  proof (cases "\<forall>x \<in> set (rev v). isspace x")
    case True
    then have "dropWhile isspace (rev v @ CHR '':'' # rev k) = CHR '':'' # rev k"
      using not_isspace_colon by (simp add: dropWhile_append)
    then show ?thesis by simp
  next
    case False
    then have "dropWhile isspace (rev v @ CHR '':'' # rev k)
                 = dropWhile isspace (rev v) @ CHR '':'' # rev k"
      by (auto simp: dropWhile_append)
    then show ?thesis by blast
  qed
  then obtain u where u: "dropWhile isspace (rev ?s) = u @ CHR '':'' # rev k"
    using r by auto
  have "strip ?s = rev (u @ CHR '':'' # rev k)"
    unfolding strip_def 1 using u by simp
  then have "strip ?s = k @ '':'' @ rev u" by simp
  then show ?thesis by auto
qed

lemma refilter_kept:
  assumes "\<forall>p \<in> set K. strip p = p \<and> p \<noteq> [] \<and> \<not> startswith p kc"
  shows "filter (\<lambda>part. \<not> startswith part kc) (map strip (filter (\<lambda>part. strip part \<noteq> []) K)) = K"
  using assms by (induction K) auto

lemma kept_parts_new_style:
  assumes "CHR '';'' \<notin> set k" and "CHR '';'' \<notin> set v" and "k = [] \<or> \<not> isspace (hd k)"
  shows "kept_parts (join '';'' (kept_parts s k @ [k @ '':'' @ v]) @ '';'') k = kept_parts s k"
proof -
  let ?K = "kept_parts s k"
  obtain w where w: "strip (k @ '':'' @ v) = k @ '':'' @ w"
    using strip_pair [OF assms(3)] by blast
  have K: "\<forall>p \<in> set ?K. strip p = p \<and> p \<noteq> [] \<and> \<not> startswith p (k @ '':'')"
    using kept_parts_props by blast
  have sw: "startswith (k @ '':'' @ w) (k @ '':'')"
    using startswith_append [of "k @ '':''" w] by simp
  have e: "strip [] = []" by (simp add: strip_def)
  have "kept_parts (join '';'' (?K @ [k @ '':'' @ v]) @ '';'') k
          = filter (\<lambda>part. \<not> startswith part (k @ '':''))
              (map strip (filter (\<lambda>part. strip part \<noteq> []) (?K @ [k @ '':'' @ v, []])))"
    unfolding kept_parts_def [of "join '';'' (?K @ [k @ '':'' @ v]) @ '';''"]
    using split_new_style [OF assms(1,2)] by simp
  also have "\<dots> = filter (\<lambda>part. \<not> startswith part (k @ '':''))
              (map strip (filter (\<lambda>part. strip part \<noteq> []) ?K))"
    using w sw e by simp
  also have "\<dots> = ?K" using K by (rule refilter_kept)
  finally show ?thesis .
qed

lemma update_twice:
  assumes "CHR '';'' \<notin> set k" and "CHR '';'' \<notin> set v" and "k = [] \<or> \<not> isspace (hd k)"
  shows "update_style_property (update_style_property self k v) k v = update_style_property self k v"
proof -
  let ?t = "update_style_property self k v"
  have s: "style_of ?t = join '';'' (kept_parts (style_of self) k @ [k @ '':'' @ v]) @ '';''"
    by (rule style_of_update)
  have kp: "kept_parts (style_of ?t) k = kept_parts (style_of self) k"
    unfolding s using assms by (rule kept_parts_new_style)
  have u: "\<And>t. update_style_property t k v =
      Textbox (elm_set (shape_elm t) ''style'' (join '';'' (kept_parts (style_of t) k @ [k @ '':'' @ v]) @ '';''))"
    by (simp add: update_style_property_def kept_parts_def Let_def)
  show ?thesis
    by (subst u [of ?t]) (simp add: kp, simp add: u [of self] elm_set_def)
qed



lemma spec_pair_new: "CHR '':'' \<notin> set k \<Longrightarrow> spec_pair (k @ '':'' @ v) = (k, v)"
  by (simp add: spec_pair_def takeWhile_append dropWhile_append)

lemma key_startswith:
  assumes "CHR '':'' \<in> set f" and "CHR '':'' \<notin> set k"
  shows "fst (spec_pair f) = k \<longleftrightarrow> startswith f (k @ '':'')"
proof
  assume "fst (spec_pair f) = k"
  then have t: "takeWhile (\<lambda>c. c \<noteq> CHR '':'') f = k" by (simp add: spec_pair_def)
  let ?d = "dropWhile (\<lambda>c. c \<noteq> CHR '':'') f"
  have "?d \<noteq> []" using assms(1) by simp
  moreover have "hd ?d = CHR '':''" using hd_dropWhile [of "\<lambda>c. c \<noteq> CHR '':''" f] \<open>?d \<noteq> []\<close> by simp
  ultimately obtain r where "?d = CHR '':'' # r" by (cases ?d) auto
  then have "f = k @ '':'' @ r" using t takeWhile_dropWhile_id [of "\<lambda>c. c \<noteq> CHR '':''" f] by simp
  then show "startswith f (k @ '':'')" by (simp add: startswith_iff)
next
  assume "startswith f (k @ '':'')"
  then obtain r where "f = k @ '':'' @ r" by (auto simp: startswith_iff)
  then show "fst (spec_pair f) = k" using assms(2) spec_pair_new [of k r] by simp
qed

lemma spec_fragments_new_style:
  assumes "CHR '';'' \<notin> set k" and "CHR '';'' \<notin> set v"
  shows "spec_fragments (join '';'' (kept_parts s k @ [k @ '':'' @ v]) @ '';'')
           = kept_parts s k @ [k @ '':'' @ v]"
proof -
  have "\<forall>p \<in> set (kept_parts s k). p \<noteq> []" using kept_parts_props(2) by blast
  then have "filter (\<lambda>f. f \<noteq> []) (kept_parts s k) = kept_parts s k" by (simp add: filter_id_conv)
  then show ?thesis
    unfolding spec_fragments_def split_new_style [OF assms] by simp
qed

lemma spec_pairs_new_style:
  assumes "CHR '';'' \<notin> set k" and "CHR '';'' \<notin> set v" and "CHR '':'' \<notin> set k"
  shows "spec_pairs (join '';'' (kept_parts s k @ [k @ '':'' @ v]) @ '';'')
           = map spec_pair (filter (\<lambda>f. CHR '':'' \<in> set f) (kept_parts s k)) @ [(k, v)]"
  unfolding spec_pairs_def spec_fragments_new_style [OF assms(1,2)]
  using spec_pair_new [OF assms(3)] by simp

lemma kept_pairs_other_key:
  assumes "CHR '':'' \<notin> set k"
  shows "filter (\<lambda>p. fst p = k) (map spec_pair (filter (\<lambda>f. CHR '':'' \<in> set f) (kept_parts s k))) = []"
proof -
  have "\<And>f. f \<in> set (kept_parts s k) \<Longrightarrow> CHR '':'' \<in> set f \<Longrightarrow> fst (spec_pair f) \<noteq> k"
    using key_startswith [OF _ assms] kept_parts_props(4) by blast
  then show ?thesis by (auto simp: filter_empty_conv)
qed

lemma one_pair_after_update:
  assumes "CHR '';'' \<notin> set k" and "CHR '';'' \<notin> set v" and "CHR '':'' \<notin> set k"
  shows "filter (\<lambda>p. fst p = k) (spec_pairs (style_of (update_style_property self k v))) = [(k, v)]"
  unfolding style_of_update spec_pairs_new_style [OF assms]
  using kept_pairs_other_key [OF assms(3)] by simp

lemma kept_parts_trimmed:
  assumes "\<forall>f \<in> set (split s '';''). strip f = f"
  shows "kept_parts s k = filter (\<lambda>part. \<not> startswith part (k @ '':'')) (spec_fragments s)"
proof -
  have "\<And>xs. \<forall>f \<in> set xs. strip f = f \<Longrightarrow>
          map strip (filter (\<lambda>part. strip part \<noteq> []) xs) = filter (\<lambda>f. f \<noteq> []) xs"
  proof -
    fix xs :: "string list" show "\<forall>f \<in> set xs. strip f = f \<Longrightarrow>
          map strip (filter (\<lambda>part. strip part \<noteq> []) xs) = filter (\<lambda>f. f \<noteq> []) xs"
      by (induction xs) auto
  qed
  then show ?thesis using assms by (simp add: kept_parts_def spec_fragments_def)
qed

lemma other_pairs_filter:
  assumes "CHR '':'' \<notin> set k"
  shows "map spec_pair (filter (\<lambda>f. CHR '':'' \<in> set f) (filter (\<lambda>part. \<not> startswith part (k @ '':'')) fs))
       = filter (\<lambda>p. fst p \<noteq> k) (map spec_pair (filter (\<lambda>f. CHR '':'' \<in> set f) fs))"
  using key_startswith [OF _ assms] by (induction fs) auto

lemma spec_pairs_after_update_trimmed:
  assumes "CHR '';'' \<notin> set k" and "CHR '';'' \<notin> set v" and "CHR '':'' \<notin> set k"
    and "\<forall>f \<in> set (split (style_of self) '';''). strip f = f"
  shows "spec_pairs (style_of (update_style_property self k v))
           = filter (\<lambda>p. fst p \<noteq> k) (spec_pairs (style_of self)) @ [(k, v)]"
proof -
  let ?old = "style_of self"
  have "spec_pairs (style_of (update_style_property self k v))
          = map spec_pair (filter (\<lambda>f. CHR '':'' \<in> set f) (kept_parts ?old k)) @ [(k, v)]"
    by (simp only: style_of_update spec_pairs_new_style [OF assms(1,2,3)])
  also have "kept_parts ?old k = filter (\<lambda>part. \<not> startswith part (k @ '':'')) (spec_fragments ?old)"
    using assms(4) by (rule kept_parts_trimmed)
  finally show ?thesis
    by (simp only: other_pairs_filter [OF assms(3)] spec_pairs_def)
qed


section \<open>Inline shape collection\<close>

text \<open>
  C4. For every collection and every index \<open>i\<close> in \<open>[0, len)\<close>, \<open>getitem\<close> returns the
  proxy of the \<open>i\<close>-th node of the query result; at \<open>len\<close> and at \<open>- len - 1\<close> it raises
  \<open>IndexError\<close>.
\<close>

theorem getitem_valid_and_bounds:
  "(\<forall>i < len self. getitem self (int i) = Inr (InlineShape (inline_lst self ! i))) \<and>
   getitem self (int (len self)) = Inl (IndexError (index_msg (int (len self)))) \<and>
   getitem self (- int (len self) - 1) = Inl (IndexError (index_msg (- int (len self) - 1)))"
  by (simp add: getitem_def list_getitem_def len_def)

theorem getitem_valid_and_bounds_witness:
  "(1::nat) < len ex_shapes \<and>
   getitem ex_shapes 1 = Inr (InlineShape (ex_inline (ns_c ex_ns) None)) \<and>
   getitem ex_shapes 2 = Inl (IndexError ''inline shape index [2] out of range'') \<and>
   getitem ex_shapes (- 3) = Inl (IndexError ''inline shape index [-3] out of range'')"
proof -
  have l: "len ex_shapes = 2" by (simp add: len_def inline_lst_def ex_shapes_def)
  have n: "inline_lst ex_shapes ! 1 = ex_inline (ns_c ex_ns) None"
    by (simp add: inline_lst_def ex_shapes_def)
  have m2: "index_msg 2 = ''inline shape index [2] out of range''"
    by code_simp
  have m3: "index_msg (- 3) = ''inline shape index [-3] out of range''"
    by code_simp
  note t = getitem_valid_and_bounds [of ex_shapes]
  have lt: "1 < len ex_shapes" using l by simp
  have "\<forall>i < len ex_shapes. getitem ex_shapes (int i) = Inr (InlineShape (inline_lst ex_shapes ! i))"
    using t by blast
  then have a: "getitem ex_shapes (int 1) = Inr (InlineShape (inline_lst ex_shapes ! 1))"
    using lt by blast
  have b: "getitem ex_shapes (int 2) = Inl (IndexError (index_msg (int 2)))"
    using t l by simp
  have c: "getitem ex_shapes (- int 2 - 1) = Inl (IndexError (index_msg (- int 2 - 1)))"
    using t l by simp
  from a b c
  show ?thesis using l n m2 m3 by simp
qed

text \<open>
  C10. For every collection of length \<open>n > 0\<close> and every index \<open>i\<close> with
  \<open>-n \<le> i \<le> -1\<close>, \<open>getitem\<close> does not raise and returns the proxy of node \<open>n + i\<close>.
\<close>

theorem getitem_negative_index:
  assumes "len self = n" and "0 < n" and "- int n \<le> i" and "i \<le> - 1"
  shows "getitem self i = Inr (InlineShape (inline_lst self ! nat (int n + i)))"
  using assms by (simp add: getitem_def list_getitem_def len_def)

theorem getitem_negative_index_witness:
  "len ex_shapes = 2 \<and> (0::nat) < 2 \<and> - int 2 \<le> - 2 \<and> (- 2 :: int) \<le> - 1 \<and>
   getitem ex_shapes (- 2) = Inr (InlineShape (ex_inline (ns_pic ex_ns) (Some (ex_picture None))))"
proof -
  have l: "len ex_shapes = 2" by (simp add: len_def inline_lst_def ex_shapes_def)
  have n: "inline_lst ex_shapes ! 0 = ex_inline (ns_pic ex_ns) (Some (ex_picture None))"
    by (simp add: inline_lst_def ex_shapes_def)
  have "getitem ex_shapes (- 2) = Inr (InlineShape (inline_lst ex_shapes ! nat (int 2 + (- 2))))"
    by (rule getitem_negative_index [OF l]) simp_all
  then show ?thesis using l n by simp
qed

section \<open>Inline shape size and type\<close>

text \<open>
  C1 (as stated, refuted). On an inline shape without \<open>pic\<close> sub-tree the width setter
  raises, and the extent it leaves behind is not the one it found: \<open>cx\<close> holds the new
  value.
\<close>

theorem set_width_not_atomic_counterexample:
  "pic (graphicData (graphic (inline_elm (InlineShape (ex_inline (ns_c ex_ns) None))))) = None \<and>
   fst (InlineShape_set_width (InlineShape (ex_inline (ns_c ex_ns) None)) 5) = Inl AttributeError \<and>
   InlineShape_width (InlineShape (ex_inline (ns_c ex_ns) None)) = 914400 \<and>
   InlineShape_width (snd (InlineShape_set_width (InlineShape (ex_inline (ns_c ex_ns) None)) 5)) = 5 \<and>
   snd (InlineShape_set_width (InlineShape (ex_inline (ns_c ex_ns) None)) 5)
     \<noteq> InlineShape (ex_inline (ns_c ex_ns) None)"
  by (simp add: InlineShape_set_width_def InlineShape_width_def ex_inline_def Let_def)

text \<open>
  C1 (amended). On every inline shape without \<open>pic\<close> sub-tree, setting the width (the
  height) raises, nothing is written under \<open>graphicData\<close>, and the element is left with
  \<open>extent.cx\<close> (\<open>extent.cy\<close>) already set to the new value and otherwise as it was.
\<close>

theorem set_size_without_pic:
  assumes "pic (graphicData (graphic (inline_elm self))) = None"
  shows "InlineShape_set_width self v =
           (Inl AttributeError, InlineShape ((inline_elm self)\<lparr>extent := (extent (inline_elm self))\<lparr>cx := v\<rparr>\<rparr>)) \<and>
         InlineShape_set_height self v =
           (Inl AttributeError, InlineShape ((inline_elm self)\<lparr>extent := (extent (inline_elm self))\<lparr>cy := v\<rparr>\<rparr>))"
  using assms by (simp add: InlineShape_set_width_def InlineShape_set_height_def Let_def)

theorem set_size_without_pic_witness:
  "pic (graphicData (graphic (inline_elm (InlineShape (ex_inline (ns_c ex_ns) None))))) = None \<and>
   InlineShape_set_width (InlineShape (ex_inline (ns_c ex_ns) None)) 5 =
     (Inl AttributeError,
      InlineShape \<lparr>extent = \<lparr>cx = 5, cy = 457200\<rparr>,
                   graphic = \<lparr>graphicData = \<lparr>uri = ns_c ex_ns, pic = None\<rparr>\<rparr>\<rparr>) \<and>
   InlineShape_set_height (InlineShape (ex_inline (ns_c ex_ns) None)) 5 =
     (Inl AttributeError,
      InlineShape \<lparr>extent = \<lparr>cx = 914400, cy = 5\<rparr>,
                   graphic = \<lparr>graphicData = \<lparr>uri = ns_c ex_ns, pic = None\<rparr>\<rparr>\<rparr>)"
proof -
  have h: "pic (graphicData (graphic (inline_elm (InlineShape (ex_inline (ns_c ex_ns) None))))) = None"
    by (simp add: ex_inline_def)
  show ?thesis
    using h set_size_without_pic [OF h, of 5] by (simp add: ex_inline_def)
qed

text \<open>
  C2. For every inline shape whose \<open>pic\<close> sub-tree is present and every length \<open>v\<close>:
  setting the width succeeds, the width then reads \<open>v\<close> and \<open>spPr.cx\<close> is \<open>v\<close>; likewise
  for the height and \<open>spPr.cy\<close>.
\<close>

theorem set_size_read_back:
  assumes "pic (graphicData (graphic (inline_elm self))) = Some p"
  shows "fst (InlineShape_set_width self v) = Inr () \<and>
         InlineShape_width (snd (InlineShape_set_width self v)) = v \<and>
         map_option cx (spPr_of (snd (InlineShape_set_width self v))) = Some v \<and>
         fst (InlineShape_set_height self v) = Inr () \<and>
         InlineShape_height (snd (InlineShape_set_height self v)) = v \<and>
         map_option cy (spPr_of (snd (InlineShape_set_height self v))) = Some v"
  using assms
  by (simp add: InlineShape_set_width_def InlineShape_set_height_def InlineShape_width_def
      InlineShape_height_def spPr_of_def set_spPr_def Let_def)

theorem set_size_read_back_witness:
  "pic (graphicData (graphic (inline_elm (InlineShape (ex_inline (ns_pic ex_ns) (Some (ex_picture None)))))))
     = Some (ex_picture None) \<and>
   fst (InlineShape_set_width (InlineShape (ex_inline (ns_pic ex_ns) (Some (ex_picture None)))) 7) = Inr () \<and>
   InlineShape_width (snd (InlineShape_set_width (InlineShape (ex_inline (ns_pic ex_ns) (Some (ex_picture None)))) 7)) = 7 \<and>
   map_option cx (spPr_of (snd (InlineShape_set_width (InlineShape (ex_inline (ns_pic ex_ns) (Some (ex_picture None)))) 7))) = Some 7 \<and>
   InlineShape_height (snd (InlineShape_set_height (InlineShape (ex_inline (ns_pic ex_ns) (Some (ex_picture None)))) 7)) = 7 \<and>
   map_option cy (spPr_of (snd (InlineShape_set_height (InlineShape (ex_inline (ns_pic ex_ns) (Some (ex_picture None)))) 7))) = Some 7"
proof -
  have h: "pic (graphicData (graphic (inline_elm (InlineShape (ex_inline (ns_pic ex_ns) (Some (ex_picture None)))))))
     = Some (ex_picture None)"
    by (simp add: ex_inline_def)
  show ?thesis
    using h set_size_read_back [OF h, of 7] by simp
qed

text \<open>
  C3 (as stated, refuted). An inline shape with the picture uri and no \<open>pic\<close> sub-tree
  has no link reference, and its type is not \<open>PICTURE\<close>: the read raises.
\<close>

theorem type_not_total_counterexample:
  "uri (graphicData (graphic (inline_elm (InlineShape (ex_inline (ns_pic ex_ns) None))))) = ns_pic ex_ns \<and>
   pic (graphicData (graphic (inline_elm (InlineShape (ex_inline (ns_pic ex_ns) None))))) = None \<and>
   InlineShape_type ex_ns (InlineShape (ex_inline (ns_pic ex_ns) None)) = Inl AttributeError \<and>
   InlineShape_type ex_ns (InlineShape (ex_inline (ns_pic ex_ns) None)) \<noteq> Inr PICTURE"
  by (simp add: InlineShape_type_def ex_inline_def Let_def)

text \<open>
  C3 (amended). With three distinct namespace uris: a picture uri whose \<open>pic\<close> sub-tree
  is present yields \<open>PICTURE\<close> without a link reference and \<open>LINKED_PICTURE\<close> with one; a
  chart uri yields \<open>CHART\<close>; a smart-art uri yields \<open>SMART_ART\<close>; every other uri yields
  \<open>NOT_IMPLEMENTED\<close>; a picture uri whose \<open>pic\<close> sub-tree is absent raises.
\<close>

theorem type_classification:
  assumes "ns_c ns \<noteq> ns_pic ns" and "ns_dgm ns \<noteq> ns_pic ns" and "ns_dgm ns \<noteq> ns_c ns"
  shows "(uri (graphicData (graphic (inline_elm self))) = ns_pic ns \<longrightarrow>
            (\<forall>p. pic (graphicData (graphic (inline_elm self))) = Some p \<longrightarrow>
               (link (blip (blipFill p)) = None \<longrightarrow> InlineShape_type ns self = Inr PICTURE) \<and>
               (link (blip (blipFill p)) \<noteq> None \<longrightarrow> InlineShape_type ns self = Inr LINKED_PICTURE)) \<and>
            (pic (graphicData (graphic (inline_elm self))) = None \<longrightarrow>
               InlineShape_type ns self = Inl AttributeError)) \<and>
         (uri (graphicData (graphic (inline_elm self))) = ns_c ns \<longrightarrow>
            InlineShape_type ns self = Inr CHART) \<and>
         (uri (graphicData (graphic (inline_elm self))) = ns_dgm ns \<longrightarrow>
            InlineShape_type ns self = Inr SMART_ART) \<and>
         (uri (graphicData (graphic (inline_elm self))) \<notin> {ns_pic ns, ns_c ns, ns_dgm ns} \<longrightarrow>
            InlineShape_type ns self = Inr NOT_IMPLEMENTED)"
  using assms by (simp add: InlineShape_type_def Let_def)

theorem type_classification_witness:
  "ns_c ex_ns \<noteq> ns_pic ex_ns \<and> ns_dgm ex_ns \<noteq> ns_pic ex_ns \<and> ns_dgm ex_ns \<noteq> ns_c ex_ns \<and>
   InlineShape_type ex_ns (InlineShape (ex_inline (ns_pic ex_ns) (Some (ex_picture None)))) = Inr PICTURE \<and>
   InlineShape_type ex_ns (InlineShape (ex_inline (ns_pic ex_ns) (Some (ex_picture (Some ''rId7''))))) = Inr LINKED_PICTURE \<and>
   InlineShape_type ex_ns (InlineShape (ex_inline (ns_pic ex_ns) None)) = Inl AttributeError \<and>
   InlineShape_type ex_ns (InlineShape (ex_inline (ns_c ex_ns) None)) = Inr CHART \<and>
   InlineShape_type ex_ns (InlineShape (ex_inline (ns_dgm ex_ns) None)) = Inr SMART_ART \<and>
   InlineShape_type ex_ns (InlineShape (ex_inline ''urn:other'' None)) = Inr NOT_IMPLEMENTED"
proof -
  have d: "ns_c ex_ns \<noteq> ns_pic ex_ns" "ns_dgm ex_ns \<noteq> ns_pic ex_ns" "ns_dgm ex_ns \<noteq> ns_c ex_ns"
    by (simp_all add: ex_ns_def)
  have o: "''urn:other'' \<notin> {ns_pic ex_ns, ns_c ex_ns, ns_dgm ex_ns}"
    by (simp add: ex_ns_def)
  note t = type_classification [OF d]
  have "InlineShape_type ex_ns (InlineShape (ex_inline (ns_pic ex_ns) (Some (ex_picture None)))) = Inr PICTURE"
    using t [of "InlineShape (ex_inline (ns_pic ex_ns) (Some (ex_picture None)))"]
    by (simp add: ex_inline_def ex_picture_def)
  moreover have "InlineShape_type ex_ns (InlineShape (ex_inline (ns_pic ex_ns) (Some (ex_picture (Some ''rId7''))))) = Inr LINKED_PICTURE"
    using t [of "InlineShape (ex_inline (ns_pic ex_ns) (Some (ex_picture (Some ''rId7''))))"]
    by (simp add: ex_inline_def ex_picture_def)
  moreover have "InlineShape_type ex_ns (InlineShape (ex_inline (ns_pic ex_ns) None)) = Inl AttributeError"
    using t [of "InlineShape (ex_inline (ns_pic ex_ns) None)"]
    by (simp add: ex_inline_def)
  moreover have "InlineShape_type ex_ns (InlineShape (ex_inline (ns_c ex_ns) None)) = Inr CHART"
    using t [of "InlineShape (ex_inline (ns_c ex_ns) None)"]
    by (simp add: ex_inline_def)
  moreover have "InlineShape_type ex_ns (InlineShape (ex_inline (ns_dgm ex_ns) None)) = Inr SMART_ART"
    using t [of "InlineShape (ex_inline (ns_dgm ex_ns) None)"]
    by (simp add: ex_inline_def)
  moreover have "InlineShape_type ex_ns (InlineShape (ex_inline ''urn:other'' None)) = Inr NOT_IMPLEMENTED"
    using t [of "InlineShape (ex_inline ''urn:other'' None)"] o
    by (simp add: ex_inline_def)
  ultimately show ?thesis using d by simp
qed


section \<open>Textbox style\<close>

text \<open>
  C5 (the code at the failing input). In the style
  \<open>border-width:2pt;width:5pt;\<close> the only pair with key \<open>width\<close> has value \<open>5pt\<close>,
  yet the width getter hands \<open>2\<close>, taken from the pair \<open>border-width:2pt\<close>, to
  \<open>float\<close>: it looks for the text \<open>width:\<close> anywhere in the string.
\<close>

theorem width_reads_longer_key:
  "spec_pairs ''border-width:2pt;width:5pt;'' = [(''border-width'', ''2pt''), (''width'', ''5pt'')] \<and>
   spec_get ''border-width:2pt;width:5pt;'' ''width'' = Some ''5pt'' \<and>
   Textbox_width fl (ex_textbox (Some ''border-width:2pt;width:5pt;'')) = py_float fl ''2''"
  by (simp add: spec_get_def spec_pairs_def spec_fragments_def spec_pair_def split.simps
      Textbox_width_def read_points_def style_of_def elm_get_def ex_textbox_def contains_def)

text \<open>
  C9 (the code at the failing input). The style \<open>scroll-margin-left:7pt;\<close> has no pair with
  key \<open>margin-left\<close>, yet the left getter hands \<open>7\<close> to \<open>float\<close> instead of returning
  \<open>0.0\<close>. After the update that \<open>left = 2.5\<close> performs (the value text is \<open>2.5pt\<close>)
  the style does contain \<open>margin-left:2.5pt;\<close>, and the getter still hands \<open>7\<close> to
  \<open>float\<close>.
\<close>

theorem left_reads_longer_key:
  "spec_get ''scroll-margin-left:7pt;'' ''margin-left'' = None \<and>
   Textbox_left fl (ex_textbox (Some ''scroll-margin-left:7pt;'')) = py_float fl ''7'' \<and>
   style_of (update_style_property (ex_textbox (Some ''scroll-margin-left:7pt;'')) ''margin-left'' ''2.5pt'')
     = ''scroll-margin-left:7pt;margin-left:2.5pt;'' \<and>
   Textbox_left fl (update_style_property (ex_textbox (Some ''scroll-margin-left:7pt;'')) ''margin-left'' ''2.5pt'')
     = py_float fl ''7''"
  by (simp add: spec_get_def spec_pairs_def spec_fragments_def spec_pair_def split.simps
      Textbox_left_def read_points_def style_of_def elm_get_def elm_set_def ex_textbox_def
      contains_def update_style_property_def strip_def isspace_def)

text \<open>
  C7. The updated style is every kept part followed by \<open>;\<close>, then the new pair
  followed by \<open>;\<close>: the new pair comes last and every part, the last included, has its
  separator behind it. On a textbox whose style attribute is absent or empty, updating
  \<open>width\<close> to \<open>3.0pt\<close> stores exactly \<open>width:3.0pt;\<close>.
\<close>

theorem update_serialization:
  "style_of (update_style_property self k v)
     = concat (map (\<lambda>p. p @ '';'') (kept_parts (style_of self) k)) @ k @ '':'' @ v @ '';'' \<and>
   (elm_get (shape_elm self) ''style'' = None \<or> elm_get (shape_elm self) ''style'' = Some [] \<longrightarrow>
      elm_get (shape_elm (update_style_property self ''width'' ''3.0pt'')) ''style''
        = Some ''width:3.0pt;'')"
proof -
  have "join '';'' (kept_parts (style_of self) k @ [k @ '':'' @ v]) @ '';''
          = concat (map (\<lambda>p. p @ '';'') (kept_parts (style_of self) k @ [k @ '':'' @ v]))"
    by (rule join_trailing) simp
  then have g: "style_of (update_style_property self k v)
     = concat (map (\<lambda>p. p @ '';'') (kept_parts (style_of self) k)) @ k @ '':'' @ v @ '';''"
    by (simp add: style_of_update)
  have e: "elm_get (shape_elm (update_style_property self ''width'' ''3.0pt'')) ''style''
        = Some ''width:3.0pt;''"
    if "elm_get (shape_elm self) ''style'' = None \<or> elm_get (shape_elm self) ''style'' = Some []"
  proof -
    have "style_of self = []" using that by (auto simp: style_of_def)
    then show ?thesis
      by (simp add: update_style_property_def elm_get_def elm_set_def split.simps strip_def)
  qed
  show ?thesis using g e by blast
qed

theorem update_serialization_witness:
  "elm_get (shape_elm (ex_textbox None)) ''style'' = None \<and>
   elm_get (shape_elm (update_style_property (ex_textbox None) ''width'' ''3.0pt'')) ''style''
     = Some ''width:3.0pt;'' \<and>
   elm_get (shape_elm (ex_textbox (Some []))) ''style'' = Some [] \<and>
   elm_get (shape_elm (update_style_property (ex_textbox (Some [])) ''width'' ''3.0pt'')) ''style''
     = Some ''width:3.0pt;''"
proof -
  have a: "elm_get (shape_elm (ex_textbox None)) ''style'' = None"
    by (simp add: elm_get_def ex_textbox_def)
  have b: "elm_get (shape_elm (ex_textbox (Some []))) ''style'' = Some []"
    by (simp add: elm_get_def ex_textbox_def)
  show ?thesis
    using a b update_serialization [of "ex_textbox None" "''width''" "''3.0pt''"]
      update_serialization [of "ex_textbox (Some [])" "''width''" "''3.0pt''"]
    by simp
qed

text \<open>
  C6 (as stated, refuted). With the key \<open> a\<close> (a leading blank) the second update adds
  a part; with the value \<open>;x\<close> the second update adds a part; with the key \<open>a:b\<close> the
  updated style has no pair with that key.
\<close>

theorem update_not_idempotent_counterexample:
  "style_of (update_style_property (ex_textbox None) '' a'' ''1'') = '' a:1;'' \<and>
   style_of (update_style_property (update_style_property (ex_textbox None) '' a'' ''1'') '' a'' ''1'')
     = ''a:1; a:1;'' \<and>
   update_style_property (update_style_property (ex_textbox None) '' a'' ''1'') '' a'' ''1''
     \<noteq> update_style_property (ex_textbox None) '' a'' ''1'' \<and>
   style_of (update_style_property (ex_textbox None) ''w'' '';x'') = ''w:;x;'' \<and>
   style_of (update_style_property (update_style_property (ex_textbox None) ''w'' '';x'') ''w'' '';x'')
     = ''x;w:;x;'' \<and>
   spec_pairs (style_of (update_style_property (ex_textbox None) ''a:b'' ''1'')) = [(''a'', ''b:1'')]"
proof -
  have a: "style_of (update_style_property (ex_textbox None) '' a'' ''1'') = '' a:1;''"
    by (simp add: style_of_def elm_get_def elm_set_def ex_textbox_def update_style_property_def
        split.simps strip_def isspace_def)
  have b: "style_of (update_style_property (update_style_property (ex_textbox None) '' a'' ''1'') '' a'' ''1'')
     = ''a:1; a:1;''"
    by (simp add: style_of_def elm_get_def elm_set_def ex_textbox_def update_style_property_def
        split.simps strip_def isspace_def)
  have c: "update_style_property (update_style_property (ex_textbox None) '' a'' ''1'') '' a'' ''1''
     \<noteq> update_style_property (ex_textbox None) '' a'' ''1''"
  proof
    assume "update_style_property (update_style_property (ex_textbox None) '' a'' ''1'') '' a'' ''1''
              = update_style_property (ex_textbox None) '' a'' ''1''"
    then have "''a:1; a:1;'' = '' a:1;''" using a b by simp
    then show False by simp
  qed
  have d: "style_of (update_style_property (ex_textbox None) ''w'' '';x'') = ''w:;x;''"
    by (simp add: style_of_def elm_get_def elm_set_def ex_textbox_def update_style_property_def
        split.simps strip_def isspace_def)
  have e: "style_of (update_style_property (update_style_property (ex_textbox None) ''w'' '';x'') ''w'' '';x'')
     = ''x;w:;x;''"
    by (simp add: style_of_def elm_get_def elm_set_def ex_textbox_def update_style_property_def
        split.simps strip_def isspace_def)
  have f: "spec_pairs (style_of (update_style_property (ex_textbox None) ''a:b'' ''1'')) = [(''a'', ''b:1'')]"
    by (simp add: style_of_def elm_get_def elm_set_def ex_textbox_def update_style_property_def
        split.simps strip_def isspace_def spec_pairs_def spec_fragments_def spec_pair_def)
  show ?thesis using a b c d e f by blast
qed

text \<open>
  C6 (amended). For every style, every key without \<open>;\<close> and \<open>:\<close> that does not begin
  with white space, and every value without \<open>;\<close>: updating twice gives the same textbox
  as updating once, and the updated style has exactly one pair with that key, the new
  one.
\<close>

theorem update_idempotent_unique:
  assumes "CHR '';'' \<notin> set k" and "CHR '':'' \<notin> set k" and "k = [] \<or> \<not> isspace (hd k)"
    and "CHR '';'' \<notin> set v"
  shows "update_style_property (update_style_property self k v) k v = update_style_property self k v \<and>
         filter (\<lambda>p. fst p = k) (spec_pairs (style_of (update_style_property self k v))) = [(k, v)]"
  using update_twice [OF assms(1,4,3)] one_pair_after_update [OF assms(1,4,2)] by simp

theorem update_idempotent_unique_witness:
  "CHR '';'' \<notin> set ''width'' \<and> CHR '':'' \<notin> set ''width'' \<and> \<not> isspace (hd ''width'') \<and>
   CHR '';'' \<notin> set ''3.0pt'' \<and>
   style_of (update_style_property (ex_textbox (Some ''width:1pt; height:2pt ;width:4pt'')) ''width'' ''3.0pt'')
     = ''height:2pt;width:3.0pt;'' \<and>
   update_style_property (update_style_property (ex_textbox (Some ''width:1pt; height:2pt ;width:4pt'')) ''width'' ''3.0pt'') ''width'' ''3.0pt''
     = update_style_property (ex_textbox (Some ''width:1pt; height:2pt ;width:4pt'')) ''width'' ''3.0pt'' \<and>
   filter (\<lambda>p. fst p = ''width'')
     (spec_pairs (style_of (update_style_property (ex_textbox (Some ''width:1pt; height:2pt ;width:4pt'')) ''width'' ''3.0pt'')))
     = [(''width'', ''3.0pt'')]"
proof -
  have h: "CHR '';'' \<notin> set ''width''" "CHR '':'' \<notin> set ''width''"
    "''width'' = [] \<or> \<not> isspace (hd ''width'')" "CHR '';'' \<notin> set ''3.0pt''"
    by (simp_all add: isspace_def)
  have s: "style_of (update_style_property (ex_textbox (Some ''width:1pt; height:2pt ;width:4pt'')) ''width'' ''3.0pt'')
     = ''height:2pt;width:3.0pt;''"
    by (simp add: style_of_def elm_get_def elm_set_def ex_textbox_def update_style_property_def
      split.simps strip_def isspace_def)
  show ?thesis
    using h s update_idempotent_unique [OF h, of "ex_textbox (Some ''width:1pt; height:2pt ;width:4pt'')"]
    by simp
qed

text \<open>
  C8 (as stated, refuted). Updating \<open>width\<close> on the style \<open> a:1 ;b:2\<close> changes the text
  of the pair with key \<open> a\<close>: its surrounding blanks are gone.
\<close>

theorem update_trims_other_pairs_counterexample:
  "spec_pairs '' a:1 ;b:2'' = [('' a'', ''1 ''), (''b'', ''2'')] \<and>
   style_of (update_style_property (ex_textbox (Some '' a:1 ;b:2'')) ''width'' ''3pt'')
     = ''a:1;b:2;width:3pt;'' \<and>
   spec_pairs (style_of (update_style_property (ex_textbox (Some '' a:1 ;b:2'')) ''width'' ''3pt''))
     = [(''a'', ''1''), (''b'', ''2''), (''width'', ''3pt'')] \<and>
   ('' a'', ''1 '') \<notin> set (spec_pairs (style_of
      (update_style_property (ex_textbox (Some '' a:1 ;b:2'')) ''width'' ''3pt'')))"
  by (simp add: style_of_def elm_get_def elm_set_def ex_textbox_def update_style_property_def
      split.simps strip_def isspace_def spec_pairs_def spec_fragments_def spec_pair_def)

text \<open>
  C8 (amended). For every style, every key without \<open>;\<close> and \<open>:\<close> and every value
  without \<open>;\<close>: the fragments of the updated style are the old fragments, each stripped
  of leading and trailing white space, without those that are then empty or start with
  \<open>key:\<close>, in their old order, followed by the new pair. When no old fragment has leading
  or trailing white space, the pairs of the updated style are the old pairs with another
  key, text and order unchanged, followed by the new pair.
\<close>

theorem update_keeps_other_pairs:
  assumes "CHR '';'' \<notin> set k" and "CHR '':'' \<notin> set k" and "CHR '';'' \<notin> set v"
  shows "spec_fragments (style_of (update_style_property self k v))
           = kept_parts (style_of self) k @ [k @ '':'' @ v] \<and>
         ((\<forall>f \<in> set (split (style_of self) '';''). strip f = f) \<longrightarrow>
            spec_pairs (style_of (update_style_property self k v))
              = filter (\<lambda>p. fst p \<noteq> k) (spec_pairs (style_of self)) @ [(k, v)])"
  using spec_fragments_new_style [OF assms(1,3)] spec_pairs_after_update_trimmed [OF assms(1,3,2)]
  by (simp add: style_of_update)

theorem update_keeps_other_pairs_witness:
  "CHR '';'' \<notin> set ''width'' \<and> CHR '':'' \<notin> set ''width'' \<and> CHR '';'' \<notin> set ''3pt'' \<and>
   split (style_of (ex_textbox (Some ''a:1;width:9pt;b: 2''))) '';'' = [''a:1'', ''width:9pt'', ''b: 2''] \<and>
   strip ''a:1'' = ''a:1'' \<and> strip ''width:9pt'' = ''width:9pt'' \<and> strip ''b: 2'' = ''b: 2'' \<and>
   spec_fragments (style_of (update_style_property (ex_textbox (Some ''a:1;width:9pt;b: 2'')) ''width'' ''3pt''))
     = [''a:1'', ''b: 2'', ''width:3pt''] \<and>
   spec_pairs (style_of (update_style_property (ex_textbox (Some ''a:1;width:9pt;b: 2'')) ''width'' ''3pt''))
     = [(''a'', ''1''), (''b'', '' 2''), (''width'', ''3pt'')]"
proof -
  have h: "CHR '';'' \<notin> set ''width''" "CHR '':'' \<notin> set ''width''" "CHR '';'' \<notin> set ''3pt''"
    by simp_all
  have st: "style_of (ex_textbox (Some ''a:1;width:9pt;b: 2'')) = ''a:1;width:9pt;b: 2''"
    by (simp add: style_of_def elm_get_def ex_textbox_def)
  have sp: "split ''a:1;width:9pt;b: 2'' '';'' = [''a:1'', ''width:9pt'', ''b: 2'']"
    by (simp add: split.simps)
  have t: "\<forall>f \<in> set (split (style_of (ex_textbox (Some ''a:1;width:9pt;b: 2''))) '';''). strip f = f"
    by (simp add: st sp strip_def isspace_def)
  have kp: "kept_parts ''a:1;width:9pt;b: 2'' ''width'' = [''a:1'', ''b: 2'']"
    by (simp add: kept_parts_def sp strip_def isspace_def)
  have ps: "spec_pairs ''a:1;width:9pt;b: 2'' = [(''a'', ''1''), (''width'', ''9pt''), (''b'', '' 2'')]"
    by (simp add: spec_pairs_def spec_fragments_def sp spec_pair_def)
  have ss: "strip ''a:1'' = ''a:1''" "strip ''width:9pt'' = ''width:9pt''" "strip ''b: 2'' = ''b: 2''"
    by (simp_all add: strip_def isspace_def)
  show ?thesis
    using h t ss update_keeps_other_pairs [OF h, of "ex_textbox (Some ''a:1;width:9pt;b: 2'')"]
    by (simp add: st sp kp ps)
qed

end
